theory Spec2Isabelle
  imports Complex_Main
begin

section \<open>Numbers\<close>

text \<open>
  Every quantity of the source has the TypeScript type \<open>number\<close>. The model takes
  \<open>number\<close> to be the rationals: \<open>+\<close>, \<open>-\<close>, \<open>*\<close> and \<open>/\<close> are exact, as they
  are in the source on every value that needs no rounding. The rounding of IEEE doubles,
  \<open>NaN\<close> and the infinities are outside the model.
\<close>

type_synonym number = rat

text \<open>\<open>Math.floor\<close>: the greatest integer not above the argument, again a number.\<close>

definition Math_floor :: "number \<Rightarrow> number" where
  "Math_floor v = of_int \<lfloor>v\<rfloor>"

text \<open>
  The operator \<open>%\<close> of the source is the remainder of the truncating division: the
  result has the sign of the dividend, so \<open>-1 % 3\<close> is \<open>-1\<close>. The divisor is the
  constant \<open>3\<close> at its only use, so the case of a zero divisor does not arise.
\<close>

definition js_trunc :: "number \<Rightarrow> int" where
  "js_trunc v = (if 0 \<le> v then \<lfloor>v\<rfloor> else \<lceil>v\<rceil>)"

definition js_rem :: "number \<Rightarrow> number \<Rightarrow> number" where
  "js_rem a b = a - b * of_int (js_trunc (a / b))"

section \<open>imageCropper.ts: the grid of crop regions\<close>

record CropRegion =
  x :: number
  y :: number
  width :: number
  height :: number

definition getGridSegmentRegion :: "number \<Rightarrow> number \<Rightarrow> number \<Rightarrow> CropRegion" where
  "getGridSegmentRegion imageWidth imageHeight gridIndex =
     (let gridSize = 3;
          segmentWidth = imageWidth / gridSize;
          segmentHeight = imageHeight / gridSize;
          row = Math_floor (gridIndex / gridSize);
          col = js_rem gridIndex gridSize;
          x = col * segmentWidth;
          y = row * segmentHeight;
          width = (if col = gridSize - 1 then imageWidth - x else segmentWidth);
          height = (if row = gridSize - 1 then imageHeight - y else segmentHeight)
      in \<lparr>x = x, y = y, width = width, height = height\<rparr>)"

text \<open>
  \<open>Array.from({ length: 9 }, (_, i) => ...)\<close> calls the function on the indices
  \<open>0, 1, ..., 8\<close> in this order and collects the results.
\<close>

definition getAllGridSegments :: "number \<Rightarrow> number \<Rightarrow> CropRegion list" where
  "getAllGridSegments imageWidth imageHeight =
     map (\<lambda>i. getGridSegmentRegion imageWidth imageHeight (of_nat i)) [0..<9]"

text \<open>
  The points of the image plane that a region selects: the source rectangle that
  \<open>cropImageRegion\<close> hands to \<open>drawImage\<close>, closed at its origin and open at the far
  edges.
\<close>

definition covers :: "CropRegion \<Rightarrow> number \<Rightarrow> number \<Rightarrow> bool" where
  "covers r px py =
     (x r \<le> px \<and> px < x r + width r \<and> y r \<le> py \<and> py < y r + height r)"

text \<open>The bounds that the data model asks of a region of an image.\<close>

definition withinImage :: "number \<Rightarrow> number \<Rightarrow> CropRegion \<Rightarrow> bool" where
  "withinImage imageWidth imageHeight r =
     (0 \<le> x r \<and> 0 \<le> y r \<and> x r + width r \<le> imageWidth \<and> y r + height r \<le> imageHeight)"

section \<open>imageCropper.ts: cropping through the browser\<close>

text \<open>
  \<open>cropImageRegion\<close> loads the image into an \<open>Image\<close> element and draws the region
  onto a canvas. What the browser does with the URL and the region is outside the
  program; it is a parameter of the model, one of the events below: no event at all, the
  \<open>error\<close> event of the image, a \<open>load\<close> event with no 2D context to be had, a
  \<open>load\<close> event during which a canvas call throws, or a \<open>load\<close> event whose canvas
  yields a data URL.
\<close>

datatype crop_event =
  NoEvent
  | ImageError
  | NoContext
  | CanvasThrows string
  | DataURL string

type_synonym browser = "string \<Rightarrow> CropRegion \<Rightarrow> crop_event"

text \<open>Which of the two callbacks \<open>cropImageRegion\<close> calls, and with what.\<close>

datatype callback =
  NotCalled
  | OnComplete string
  | OnError string

definition cropImageRegion :: "browser \<Rightarrow> string \<Rightarrow> CropRegion \<Rightarrow> callback" where
  "cropImageRegion browser imageUrl region =
     (case browser imageUrl region of
        NoEvent \<Rightarrow> NotCalled
      | ImageError \<Rightarrow> OnError ''Failed to load image''
      | NoContext \<Rightarrow> OnError ''Failed to get canvas context''
      | CanvasThrows error \<Rightarrow> OnError (''Crop failed: '' @ error)
      | DataURL croppedData \<Rightarrow> OnComplete croppedData)"

record CroppedImage =
  data :: string
  region :: CropRegion
  gridIndex :: number

text \<open>
  The promise that \<open>cropAndStoreDefect\<close> returns: \<open>onComplete\<close> resolves it,
  \<open>onError\<close> is \<open>reject\<close> itself, and it stays pending when neither is called.
\<close>

datatype 'a promise =
  Pending
  | Resolved 'a
  | Rejected string

definition cropAndStoreDefect ::
  "browser \<Rightarrow> string \<Rightarrow> number \<Rightarrow> number \<Rightarrow> number \<Rightarrow> CroppedImage promise" where
  "cropAndStoreDefect browser =
     (\<lambda>testImageUrl gridIndex imageWidth imageHeight.
        let region = getGridSegmentRegion imageWidth imageHeight gridIndex
        in case cropImageRegion browser testImageUrl region of
             OnComplete croppedData \<Rightarrow>
               Resolved \<lparr>data = croppedData, region = region, gridIndex = gridIndex\<rparr>
           | OnError error \<Rightarrow> Rejected error
           | NotCalled \<Rightarrow> Pending)"

section \<open>types: the analysis result\<close>

record SegmentResult =
  segment_index :: nat
  ssim_score :: number
  pixel_diff_score :: number
  anomaly_detected :: bool
  confidence :: number
  verdict :: string

record AnalysisResult =
  segments :: "SegmentResult list"
  anomaly_count :: nat
  overall_defect_score :: number
  average_confidence :: number
  verdict :: string
  defect_locations :: "nat list"

text \<open>
  Of \<open>GoldenImage\<close> and \<open>TestImage\<close> the model keeps the fields that the modelled code
  reads. \<open>golden_image\<close> is the joined template that \<open>InspectionCard\<close> adds to the type
  of its images, \<open>TestImage & { golden_image?: GoldenImage }\<close>.
\<close>

record GoldenImage =
  image_path :: string

record TestImage =
  image_path :: string
  detected_defects :: "AnalysisResult option"
  golden_image :: "GoldenImage option"

section \<open>DefectViewer.tsx and InspectionCard.tsx: the dimensions of the crops\<close>

text \<open>
  The props of \<open>DefectViewer\<close>. \<open>imageWidth\<close> and \<open>imageHeight\<close> are optional; the
  callback \<open>onClose\<close> plays no part in the crops and is left out.
\<close>

record DefectViewerProps =
  testImageUrl :: string
  masterImageUrl :: string
  analysisResult :: AnalysisResult
  imageWidth :: "number option"
  imageHeight :: "number option"

text \<open>
  \<open>loadCroppedImages\<close> of \<open>DefectViewer\<close>: the two promises of \<open>cropPromises\<close>. The
  parameter list of the component gives \<open>imageWidth\<close> the default 800 and
  \<open>imageHeight\<close> the default 600, used when the prop is missing.
\<close>

definition loadCroppedImages ::
  "browser \<Rightarrow> DefectViewerProps \<Rightarrow> number \<Rightarrow> CroppedImage promise list" where
  "loadCroppedImages browser props =
     (\<lambda>gridIndex.
        let imageWidth = (case imageWidth props of None \<Rightarrow> 800 | Some w \<Rightarrow> w);
            imageHeight = (case imageHeight props of None \<Rightarrow> 600 | Some h \<Rightarrow> h)
        in [cropAndStoreDefect browser (testImageUrl props) gridIndex imageWidth imageHeight,
            cropAndStoreDefect browser (masterImageUrl props) gridIndex imageWidth imageHeight])"

text \<open>
  The \<open>DefectViewer\<close> element at the end of \<open>InspectionCard\<close>, in both versions of the
  component: rendered when \<open>showDefectViewer\<close> is set, the image has an analysis
  result and a joined template; it is given the two image paths and the analysis result.
\<close>

definition InspectionCard_DefectViewer :: "bool \<Rightarrow> TestImage \<Rightarrow> DefectViewerProps option" where
  "InspectionCard_DefectViewer showDefectViewer currentImage =
     (if showDefectViewer then
        (case detected_defects currentImage of
           None \<Rightarrow> None
         | Some result \<Rightarrow>
             (case golden_image currentImage of
                None \<Rightarrow> None
              | Some golden \<Rightarrow>
                  Some \<lparr>testImageUrl = TestImage.image_path currentImage,
                        masterImageUrl = GoldenImage.image_path golden,
                        analysisResult = result,
                        imageWidth = None,
                        imageHeight = None\<rparr>))
      else None)"

section \<open>The aggregator\<close>

definition mean :: "number list \<Rightarrow> number" where
  "mean vs = sum_list vs / of_nat (length vs)"

text \<open>
  Modelled from the spec: the Aggregator of the pipeline (section 4.5), whose code, the
  Python grid analyser behind the \<open>process-image\<close> function, is not among the sources.
  \<open>anomaly_count\<close> is the number of segments with \<open>anomaly_detected\<close>,
  \<open>defect_locations\<close> their indices in the order of the segments,
  \<open>overall_defect_score\<close> the mean of the \<open>pixel_diff_score\<close>s,
  \<open>average_confidence\<close> the mean of the confidences, and the verdict is \<open>DEFECT\<close>
  if and only if \<open>anomaly_count\<close> is positive, else \<open>NORMAL\<close>.
\<close>

definition aggregate :: "SegmentResult list \<Rightarrow> AnalysisResult" where
  "aggregate segs =
     (let count = length (filter anomaly_detected segs)
      in \<lparr>segments = segs,
          anomaly_count = count,
          overall_defect_score = mean (map pixel_diff_score segs),
          average_confidence = mean (map confidence segs),
          verdict = (if 0 < count then ''DEFECT'' else ''NORMAL''),
          defect_locations = map segment_index (filter anomaly_detected segs)\<rparr>)"

section \<open>Row and column of an integer grid index\<close>

lemma Math_floor_int_third: "Math_floor (of_int k / 3) = of_int (k div 3)"
proof -
  have "\<lfloor>(of_int k :: rat) / of_int 3\<rfloor> = k div 3"
    by (rule floor_divide_of_int_eq)
  then show ?thesis
    by (simp add: Math_floor_def)
qed

lemma Math_floor_nat_third: "Math_floor (of_nat i / 3) = of_nat (i div 3)"
proof -
  have "int i div 3 = int (i div 3)"
    by (simp add: zdiv_int)
  then have "(of_int (int i div 3) :: rat) = of_nat (i div 3)"
    by simp
  with Math_floor_int_third [of "int i"] show ?thesis
    by simp
qed

lemma js_trunc_nat_third: "js_trunc (of_nat i / 3) = int (i div 3)"
proof -
  have "\<lfloor>(of_int (int i) :: rat) / of_int 3\<rfloor> = int i div 3"
    by (rule floor_divide_of_int_eq)
  moreover have "(0::rat) \<le> of_nat i / 3"
    by simp
  ultimately show ?thesis
    by (simp add: js_trunc_def zdiv_int)
qed

lemma js_rem_nat_third: "js_rem (of_nat i) 3 = of_nat (i mod 3)"
proof -
  have "(of_nat i :: rat) = of_nat (3 * (i div 3) + i mod 3)"
    by simp
  also have "\<dots> = 3 * of_nat (i div 3) + of_nat (i mod 3)"
    by (simp only: of_nat_add of_nat_mult of_nat_numeral)
  finally have "(of_nat i :: rat) - 3 * of_nat (i div 3) = of_nat (i mod 3)"
    by simp
  then show ?thesis
    by (simp add: js_rem_def js_trunc_nat_third)
qed

lemma col_eq_2_iff: "((of_nat c :: rat) = 2) = (c = 2)"
  using of_nat_eq_iff [of c 2, where ?'a = rat] by simp

lemma getGridSegmentRegion_nat:
  "getGridSegmentRegion W H (of_nat i) =
     \<lparr>x = of_nat (i mod 3) * (W / 3),
      y = of_nat (i div 3) * (H / 3),
      width = (if i mod 3 = 2 then W - 2 * (W / 3) else W / 3),
      height = (if i div 3 = 2 then H - 2 * (H / 3) else H / 3)\<rparr>"
  by (simp add: getGridSegmentRegion_def Math_floor_nat_third js_rem_nat_third col_eq_2_iff)

lemma nat_below_9_div_mod: "i < 9 \<Longrightarrow> i div 3 < 3 \<and> i mod 3 < (3::nat)"
  by (simp add: less_mult_imp_div_less)

lemma third_cases:
  fixes c :: nat
  assumes "c < 3"
  obtains "c = 0" | "c = 1" | "c = 2"
  using assms by arith

section \<open>Sizes of the segments\<close>

text \<open>
  Claim C1 at a 10 by 10 image. The claim gives the segments outside the last column and
  row the size \<open>floor (10 / 3) = 3\<close> and leaves the remainder, \<open>10 - 2 * 3 = 4\<close>,
  to the last column and row. The code divides without rounding down: segment 0 is
  \<open>10 / 3\<close> wide and high, and so is segment 8 in the last column and row, whose
  branch \<open>imageWidth - x\<close> then has no remainder to take up.
\<close>

theorem getGridSegmentRegion_10_by_10:
  "getGridSegmentRegion 10 10 0 = \<lparr>x = 0, y = 0, width = 10 / 3, height = 10 / 3\<rparr> \<and>
   width (getGridSegmentRegion 10 10 0) \<noteq> of_int \<lfloor>(10::rat) / 3\<rfloor> \<and>
   height (getGridSegmentRegion 10 10 0) \<noteq> of_int \<lfloor>(10::rat) / 3\<rfloor> \<and>
   getGridSegmentRegion 10 10 8 = \<lparr>x = 20 / 3, y = 20 / 3, width = 10 / 3, height = 10 / 3\<rparr> \<and>
   width (getGridSegmentRegion 10 10 8) \<noteq> 10 - 2 * of_int \<lfloor>(10::rat) / 3\<rfloor> \<and>
   height (getGridSegmentRegion 10 10 8) \<noteq> 10 - 2 * of_int \<lfloor>(10::rat) / 3\<rfloor>"
proof -
  have fl: "\<lfloor>(10::rat) / 3\<rfloor> = 3"
    by (simp add: floor_eq_iff)
  have first: "getGridSegmentRegion 10 10 0 = \<lparr>x = 0, y = 0, width = 10 / 3, height = 10 / 3\<rparr>"
    using getGridSegmentRegion_nat [of 10 10 0] by simp
  have corner: "getGridSegmentRegion 10 10 8 =
      \<lparr>x = 20 / 3, y = 20 / 3, width = 10 / 3, height = 10 / 3\<rparr>"
    using getGridSegmentRegion_nat [of 10 10 8] by simp
  show ?thesis
    by (simp add: first corner fl)
qed

section \<open>Bounds of a region\<close>

lemma withinImage_nat:
  assumes "0 < W" and "0 < H" and "i < 9"
  shows "withinImage W H (getGridSegmentRegion W H (of_nat i))"
proof -
  from \<open>i < 9\<close> have rc: "i div 3 < 3" "i mod 3 < 3"
    using nat_below_9_div_mod by auto
  have col: "0 \<le> of_nat (i mod 3) * (W / 3) \<and>
             of_nat (i mod 3) * (W / 3) + (if i mod 3 = 2 then W - 2 * (W / 3) else W / 3) \<le> W"
    using rc(2) \<open>0 < W\<close> by (cases "i mod 3" rule: third_cases) simp_all
  have row: "0 \<le> of_nat (i div 3) * (H / 3) \<and>
             of_nat (i div 3) * (H / 3) + (if i div 3 = 2 then H - 2 * (H / 3) else H / 3) \<le> H"
    using rc(1) \<open>0 < H\<close> by (cases "i div 3" rule: third_cases) simp_all
  from col row show ?thesis
    by (simp add: withinImage_def getGridSegmentRegion_nat)
qed

text \<open>
  Claim C3. For a positive width and height of the image and a grid index \<open>i\<close> from 0
  to 8, the region has a non-negative origin and ends inside the image:
  \<open>x + width \<le> imageWidth\<close> and \<open>y + height \<le> imageHeight\<close>.
\<close>

theorem getGridSegmentRegion_within_image:
  assumes "0 < W" and "0 < H" and "i < 9"
  shows "0 \<le> x (getGridSegmentRegion W H (of_nat i)) \<and>
         0 \<le> y (getGridSegmentRegion W H (of_nat i)) \<and>
         x (getGridSegmentRegion W H (of_nat i)) + width (getGridSegmentRegion W H (of_nat i)) \<le> W \<and>
         y (getGridSegmentRegion W H (of_nat i)) + height (getGridSegmentRegion W H (of_nat i)) \<le> H"
  using withinImage_nat [OF assms] by (simp add: withinImage_def)

theorem getGridSegmentRegion_within_image_witness:
  "(0::rat) < 10 \<and> (0::rat) < 7 \<and> (8::nat) < 9 \<and>
   x (getGridSegmentRegion 10 7 (of_nat 8)) + width (getGridSegmentRegion 10 7 (of_nat 8)) \<le> 10 \<and>
   y (getGridSegmentRegion 10 7 (of_nat 8)) + height (getGridSegmentRegion 10 7 (of_nat 8)) \<le> 7"
  using getGridSegmentRegion_within_image [of 10 7 8] by simp

section \<open>Row-major order\<close>

text \<open>
  Claim C4. For a grid index \<open>i\<close> from 0 to 8 the code computes the row \<open>i div 3\<close> and
  the column \<open>i mod 3\<close>, both below 3, with \<open>i = row * 3 + col\<close>; the origin of the
  region is the column times the segment width and the row times the segment height,
  where the segment width and height of the code are \<open>imageWidth / 3\<close> and
  \<open>imageHeight / 3\<close>.
\<close>

theorem getGridSegmentRegion_row_major:
  assumes "i < 9"
  shows "Math_floor (of_nat i / 3) = of_nat (i div 3) \<and>
         js_rem (of_nat i) 3 = of_nat (i mod 3) \<and>
         i div 3 < 3 \<and> i mod 3 < 3 \<and> i = (i div 3) * 3 + i mod 3 \<and>
         x (getGridSegmentRegion W H (of_nat i)) = of_nat (i mod 3) * (W / 3) \<and>
         y (getGridSegmentRegion W H (of_nat i)) = of_nat (i div 3) * (H / 3)"
  using assms nat_below_9_div_mod [of i]
  by (simp add: getGridSegmentRegion_nat Math_floor_nat_third js_rem_nat_third)

theorem getGridSegmentRegion_row_major_witness:
  "(5::nat) < 9 \<and>
   x (getGridSegmentRegion 9 6 (of_nat 5)) = 2 * 3 \<and>
   y (getGridSegmentRegion 9 6 (of_nat 5)) = 1 * 2"
  using getGridSegmentRegion_row_major [of 5 9 6] by simp

section \<open>The list of all segments\<close>

lemma length_getAllGridSegments: "length (getAllGridSegments W H) = 9"
  by (simp add: getAllGridSegments_def)

lemma nth_getAllGridSegments:
  "i < 9 \<Longrightarrow> getAllGridSegments W H ! i = getGridSegmentRegion W H (of_nat i)"
  unfolding getAllGridSegments_def by (simp only: nth_map_upt) simp

text \<open>
  Claim C6. For every width and height \<open>getAllGridSegments\<close> returns a list of exactly
  nine regions, and its element at position \<open>i\<close>, for \<open>i\<close> from 0 to 8, is
  \<open>getGridSegmentRegion\<close> of the same width and height at the index \<open>i\<close>.
\<close>

theorem getAllGridSegments_elements:
  "length (getAllGridSegments W H) = 9 \<and>
   (\<forall>i<9. getAllGridSegments W H ! i = getGridSegmentRegion W H (of_nat i))"
  by (simp add: length_getAllGridSegments nth_getAllGridSegments)

theorem getAllGridSegments_elements_witness:
  "length (getAllGridSegments 10 7) = 9 \<and>
   getAllGridSegments 10 7 ! 4 = getGridSegmentRegion 10 7 4"
  using getAllGridSegments_elements [of 10 7] by simp

section \<open>The nine regions tile the image\<close>

lemma covers_segment:
  assumes "i < 9"
  shows "covers (getGridSegmentRegion W H (of_nat i)) px py =
           (of_nat (i mod 3) * (W / 3) \<le> px \<and> px < (of_nat (i mod 3) + 1) * (W / 3) \<and>
            of_nat (i div 3) * (H / 3) \<le> py \<and> py < (of_nat (i div 3) + 1) * (H / 3))"
  by (simp add: covers_def getGridSegmentRegion_nat algebra_simps)

lemma band_positive:
  fixes t p :: rat and c :: nat
  assumes "of_nat c * t \<le> p" and "p < (of_nat c + 1) * t"
  shows "0 < t"
proof -
  from assms have "of_nat c * t < (of_nat c + 1) * t"
    by simp
  then show ?thesis
    by (simp add: algebra_simps)
qed

lemma band_order:
  fixes t p :: rat and c d :: nat
  assumes "p < (of_nat c + 1) * t" and "of_nat d * t \<le> p" and "0 < t"
  shows "d \<le> c"
proof (rule ccontr)
  assume "\<not> d \<le> c"
  then have "c + 1 \<le> d"
    by simp
  then have "(of_nat (c + 1) :: rat) \<le> of_nat d"
    by (simp only: of_nat_le_iff)
  then have "(of_nat c + 1) * t \<le> of_nat d * t"
    using \<open>0 < t\<close> by (simp add: mult_right_mono)
  with assms show False
    by simp
qed

lemma band_unique:
  fixes t p :: rat and c d :: nat
  assumes "of_nat c * t \<le> p" and "p < (of_nat c + 1) * t"
    and "of_nat d * t \<le> p" and "p < (of_nat d + 1) * t"
  shows "c = d"
proof -
  have "0 < t"
    using assms(1,2) by (rule band_positive)
  have "d \<le> c"
    using assms(2,3) \<open>0 < t\<close> by (rule band_order)
  moreover have "c \<le> d"
    using assms(4,1) \<open>0 < t\<close> by (rule band_order)
  ultimately show ?thesis
    by simp
qed

lemma band_exists:
  fixes W p :: rat
  assumes "0 \<le> p" and "p < W"
  shows "\<exists>c<3. of_nat c * (W / 3) \<le> p \<and> p < (of_nat c + 1) * (W / 3)"
proof -
  consider "p < W / 3" | "W / 3 \<le> p" "p < 2 * (W / 3)" | "2 * (W / 3) \<le> p"
    by linarith
  then show ?thesis
  proof cases
    case 1
    with assms have "(0::nat) < 3 \<and> of_nat 0 * (W / 3) \<le> p \<and> p < (of_nat 0 + 1) * (W / 3)"
      by simp
    then show ?thesis by blast
  next
    case 2
    then have "(1::nat) < 3 \<and> of_nat 1 * (W / 3) \<le> p \<and> p < (of_nat 1 + 1) * (W / 3)"
      by simp
    then show ?thesis by blast
  next
    case 3
    with assms have "(2::nat) < 3 \<and> of_nat 2 * (W / 3) \<le> p \<and> p < (of_nat 2 + 1) * (W / 3)"
      by simp
    then show ?thesis by blast
  qed
qed

lemma band_inside:
  fixes W p :: rat and c :: nat
  assumes "c < 3" and "of_nat c * (W / 3) \<le> p" and "p < (of_nat c + 1) * (W / 3)"
  shows "0 \<le> p \<and> p < W"
proof -
  have "0 < W / 3"
    using assms(2,3) by (rule band_positive)
  with assms show ?thesis
    by (cases c rule: third_cases) simp_all
qed

lemma segments_cover:
  "(\<exists>i<9. covers (getGridSegmentRegion W H (of_nat i)) px py) =
     (0 \<le> px \<and> px < W \<and> 0 \<le> py \<and> py < H)"
proof
  assume "\<exists>i<9. covers (getGridSegmentRegion W H (of_nat i)) px py"
  then obtain i where i: "i < 9" and c: "covers (getGridSegmentRegion W H (of_nat i)) px py"
    by blast
  from i have rc: "i div 3 < 3" "i mod 3 < 3"
    using nat_below_9_div_mod by auto
  from c i have
    "of_nat (i mod 3) * (W / 3) \<le> px" "px < (of_nat (i mod 3) + 1) * (W / 3)"
    "of_nat (i div 3) * (H / 3) \<le> py" "py < (of_nat (i div 3) + 1) * (H / 3)"
    by (simp_all add: covers_segment)
  then show "0 \<le> px \<and> px < W \<and> 0 \<le> py \<and> py < H"
    using band_inside [OF rc(2), of W px] band_inside [OF rc(1), of H py] by simp
next
  assume inside: "0 \<le> px \<and> px < W \<and> 0 \<le> py \<and> py < H"
  then obtain c where c: "c < 3" "of_nat c * (W / 3) \<le> px" "px < (of_nat c + 1) * (W / 3)"
    using band_exists [of px W] by blast
  from inside obtain r where r: "r < 3" "of_nat r * (H / 3) \<le> py" "py < (of_nat r + 1) * (H / 3)"
    using band_exists [of py H] by blast
  let ?i = "r * 3 + c"
  from c(1) r(1) have i: "?i < 9" "?i mod 3 = c" "?i div 3 = r"
    by simp_all
  have "covers (getGridSegmentRegion W H (of_nat ?i)) px py =
          (of_nat c * (W / 3) \<le> px \<and> px < (of_nat c + 1) * (W / 3) \<and>
           of_nat r * (H / 3) \<le> py \<and> py < (of_nat r + 1) * (H / 3))"
    using covers_segment [OF i(1), of W H px py] by (simp only: i(2,3))
  with c r have "covers (getGridSegmentRegion W H (of_nat ?i)) px py"
    by blast
  with i(1) show "\<exists>i<9. covers (getGridSegmentRegion W H (of_nat i)) px py"
    by blast
qed

lemma segments_disjoint:
  assumes "i < 9" and "j < 9"
    and "covers (getGridSegmentRegion W H (of_nat i)) px py"
    and "covers (getGridSegmentRegion W H (of_nat j)) px py"
  shows "i = j"
proof -
  from assms have
    ci: "of_nat (i mod 3) * (W / 3) \<le> px" "px < (of_nat (i mod 3) + 1) * (W / 3)" and
    ri: "of_nat (i div 3) * (H / 3) \<le> py" "py < (of_nat (i div 3) + 1) * (H / 3)" and
    cj: "of_nat (j mod 3) * (W / 3) \<le> px" "px < (of_nat (j mod 3) + 1) * (W / 3)" and
    rj: "of_nat (j div 3) * (H / 3) \<le> py" "py < (of_nat (j div 3) + 1) * (H / 3)"
    by (simp_all add: covers_segment)
  have "i mod 3 = j mod 3"
    using ci cj by (rule band_unique)
  moreover have "i div 3 = j div 3"
    using ri rj by (rule band_unique)
  ultimately show ?thesis
    by (metis div_mult_mod_eq)
qed

text \<open>
  Claim C2. For every width and height the nine regions of \<open>getAllGridSegments\<close> tile
  the rectangle of the image: a point is covered by some region exactly when it lies in
  the rectangle from \<open>(0, 0)\<close> to \<open>(imageWidth, imageHeight)\<close>, no point is covered by
  two regions, and the regions come in row-major order, the region at position
  \<open>row * 3 + col\<close> having its origin at column \<open>col\<close> and row \<open>row\<close> of the grid.
\<close>

theorem getAllGridSegments_tiles:
  "length (getAllGridSegments W H) = 9 \<and>
   (\<forall>px py. (\<exists>i<9. covers (getAllGridSegments W H ! i) px py) =
              (0 \<le> px \<and> px < W \<and> 0 \<le> py \<and> py < H)) \<and>
   (\<forall>px py. \<forall>i<9. \<forall>j<9.
      covers (getAllGridSegments W H ! i) px py \<and> covers (getAllGridSegments W H ! j) px py
        \<longrightarrow> i = j) \<and>
   (\<forall>row<3. \<forall>col<3.
      x (getAllGridSegments W H ! (row * 3 + col)) = of_nat col * (W / 3) \<and>
      y (getAllGridSegments W H ! (row * 3 + col)) = of_nat row * (H / 3))"
proof (intro conjI allI impI)
  show "length (getAllGridSegments W H) = 9"
    by (rule length_getAllGridSegments)
next
  fix px py
  have "(\<exists>i<9. covers (getAllGridSegments W H ! i) px py) =
        (\<exists>i<9. covers (getGridSegmentRegion W H (of_nat i)) px py)"
    by (simp add: nth_getAllGridSegments cong: conj_cong)
  then show "(\<exists>i<9. covers (getAllGridSegments W H ! i) px py) =
             (0 \<le> px \<and> px < W \<and> 0 \<le> py \<and> py < H)"
    by (simp only: segments_cover)
next
  fix px py i j
  assume "i < (9::nat)" and "j < (9::nat)"
    and "covers (getAllGridSegments W H ! i) px py \<and> covers (getAllGridSegments W H ! j) px py"
  then show "i = j"
    using segments_disjoint [of i j W H px py] by (simp add: nth_getAllGridSegments)
next
  fix row col :: nat
  assume "row < 3" and "col < 3"
  then have "row * 3 + col < 9" "(row * 3 + col) mod 3 = col" "(row * 3 + col) div 3 = row"
    by simp_all
  then have "getAllGridSegments W H ! (row * 3 + col) =
      \<lparr>x = of_nat col * (W / 3), y = of_nat row * (H / 3),
       width = (if col = 2 then W - 2 * (W / 3) else W / 3),
       height = (if row = 2 then H - 2 * (H / 3) else H / 3)\<rparr>"
    by (simp only: nth_getAllGridSegments getGridSegmentRegion_nat)
  then show "x (getAllGridSegments W H ! (row * 3 + col)) = of_nat col * (W / 3)"
    and "y (getAllGridSegments W H ! (row * 3 + col)) = of_nat row * (H / 3)"
    by simp_all
qed

theorem getAllGridSegments_tiles_witness:
  "(\<exists>i<9. covers (getAllGridSegments 10 7 ! i) 5 (13 / 2)) \<and>
   \<not> (\<exists>i<9. covers (getAllGridSegments 10 7 ! i) 10 3) \<and>
   x (getAllGridSegments 10 7 ! (2 * 3 + 1)) = 10 / 3 \<and>
   y (getAllGridSegments 10 7 ! (2 * 3 + 1)) = 14 / 3"
proof -
  note t = getAllGridSegments_tiles [of 10 7]
  note cover = t [THEN conjunct2, THEN conjunct1, rule_format]
  note order = t [THEN conjunct2, THEN conjunct2, THEN conjunct2, rule_format]
  have "(2::nat) < 3" and "(1::nat) < 3"
    by simp_all
  then have "x (getAllGridSegments 10 7 ! (2 * 3 + 1)) = of_nat 1 * (10 / 3) \<and>
             y (getAllGridSegments 10 7 ! (2 * 3 + 1)) = of_nat 2 * (7 / 3)"
    by (rule order)
  then show ?thesis
    by (simp add: cover [of 5 "13 / 2"] cover [of 10 3])
qed

section \<open>Grid indices outside 0..8\<close>

lemma getGridSegmentRegion_int_row:
  "y (getGridSegmentRegion W H (of_int k)) = of_int (k div 3) * (H / 3) \<and>
   height (getGridSegmentRegion W H (of_int k)) =
     (if k div 3 = 2 then H - of_int (k div 3) * (H / 3) else H / 3)"
proof -
  have "((of_int (k div 3) :: rat) = 2) = (k div 3 = 2)"
    using of_int_eq_iff [of "k div 3" 2, where ?'a = rat] by simp
  then show ?thesis
    by (simp add: getGridSegmentRegion_def Math_floor_int_third Let_def)
qed

lemma index_above_8:
  assumes "0 < H" and "9 \<le> k"
  shows "H < y (getGridSegmentRegion W H (of_int k)) + height (getGridSegmentRegion W H (of_int k))"
proof -
  from \<open>9 \<le> k\<close> have "3 \<le> k div 3"
    by simp
  then have "(3::rat) \<le> of_int (k div 3)"
    by (metis of_int_le_iff of_int_numeral)
  moreover have "0 \<le> H / 3"
    using \<open>0 < H\<close> by simp
  ultimately have "3 * (H / 3) \<le> of_int (k div 3) * (H / 3)"
    by (rule mult_right_mono)
  moreover have "3 * (H / 3) = H" and "0 < H / 3"
    using \<open>0 < H\<close> by simp_all
  ultimately have "H < of_int (k div 3) * (H / 3) + H / 3"
    by linarith
  moreover from \<open>3 \<le> k div 3\<close> have "k div 3 \<noteq> 2"
    by simp
  ultimately show ?thesis
    by (simp only: getGridSegmentRegion_int_row if_False)
qed

lemma index_below_0:
  assumes "0 < H" and "k < 0"
  shows "y (getGridSegmentRegion W H (of_int k)) < 0"
proof -
  from \<open>k < 0\<close> have "k div 3 \<le> - 1"
    by simp
  then have "(of_int (k div 3) :: rat) \<le> - 1"
    by (metis of_int_le_iff of_int_minus of_int_1)
  moreover have "0 \<le> H / 3"
    using \<open>0 < H\<close> by simp
  ultimately have "of_int (k div 3) * (H / 3) \<le> - 1 * (H / 3)"
    by (rule mult_right_mono)
  then have "of_int (k div 3) * (H / 3) < 0"
    using \<open>0 < H\<close> by simp
  then show ?thesis
    by (simp only: getGridSegmentRegion_int_row)
qed

text \<open>
  Claim C8. \<open>getGridSegmentRegion\<close> checks nothing and returns a region for every
  integer grid index. For a positive width and height of the image, the region of an
  index of 9 or more ends below the image, \<open>y + height > imageHeight\<close>, and the bounds
  of the data model hold for the region of an integer index exactly when the index is
  from 0 to 8.
\<close>

theorem getGridSegmentRegion_index_unchecked:
  assumes "0 < W" and "0 < H"
  shows "(9 \<le> k \<longrightarrow>
           \<not> y (getGridSegmentRegion W H (of_int k)) + height (getGridSegmentRegion W H (of_int k)) \<le> H) \<and>
         withinImage W H (getGridSegmentRegion W H (of_int k)) = (0 \<le> k \<and> k \<le> 8)"
proof (intro conjI impI)
  assume "9 \<le> k"
  with \<open>0 < H\<close> show
    "\<not> y (getGridSegmentRegion W H (of_int k)) + height (getGridSegmentRegion W H (of_int k)) \<le> H"
    using index_above_8 [of H k W] by simp
next
  show "withinImage W H (getGridSegmentRegion W H (of_int k)) = (0 \<le> k \<and> k \<le> 8)"
  proof (cases "k < 0")
    case True
    with \<open>0 < H\<close> show ?thesis
      using index_below_0 [of H k W] by (simp add: withinImage_def)
  next
    case False
    show ?thesis
    proof (cases "9 \<le> k")
      case True
      with \<open>0 < H\<close> show ?thesis
        using index_above_8 [of H k W] by (simp add: withinImage_def)
    next
      case False
      with \<open>\<not> k < 0\<close> have "nat k < 9" and k: "(of_int k :: rat) = of_nat (nat k)"
        by simp_all
      from assms \<open>nat k < 9\<close> have "withinImage W H (getGridSegmentRegion W H (of_nat (nat k)))"
        by (rule withinImage_nat)
      then have "withinImage W H (getGridSegmentRegion W H (of_int k))"
        by (simp only: k)
      with False \<open>\<not> k < 0\<close> show ?thesis
        by simp
    qed
  qed
qed

theorem getGridSegmentRegion_index_unchecked_witness:
  "(0::rat) < 9 \<and> (0::rat) < 6 \<and> (9::int) \<le> 9 \<and>
   getGridSegmentRegion 9 6 (of_int 9) = \<lparr>x = 0, y = 6, width = 3, height = 2\<rparr> \<and>
   \<not> y (getGridSegmentRegion 9 6 (of_int 9)) + height (getGridSegmentRegion 9 6 (of_int 9)) \<le> 6 \<and>
   \<not> withinImage 9 6 (getGridSegmentRegion 9 6 (of_int 9)) \<and>
   \<not> withinImage 9 6 (getGridSegmentRegion 9 6 (of_int (- 1)))"
proof -
  have "getGridSegmentRegion 9 6 (of_int 9) = \<lparr>x = 0, y = 6, width = 3, height = 2\<rparr>"
    by (simp add: getGridSegmentRegion_def Math_floor_def js_rem_def js_trunc_def)
  then show ?thesis
    using getGridSegmentRegion_index_unchecked [of 9 6 9]
      getGridSegmentRegion_index_unchecked [of 9 6 "- 1"]
    by simp
qed

section \<open>The resolved crop\<close>

text \<open>
  Claim C9. When \<open>cropAndStoreDefect\<close> resolves, the resolved \<open>CroppedImage\<close> carries
  the region \<open>getGridSegmentRegion imageWidth imageHeight gridIndex\<close> and, in its field
  \<open>gridIndex\<close>, the argument \<open>gridIndex\<close> as it was given.
\<close>

theorem cropAndStoreDefect_resolved:
  assumes "cropAndStoreDefect browser url i W H = Resolved c"
  shows "region c = getGridSegmentRegion W H i \<and> gridIndex c = i"
  using assms
  by (auto simp add: cropAndStoreDefect_def Let_def split: callback.splits)

theorem cropAndStoreDefect_resolved_witness:
  "cropAndStoreDefect (\<lambda>u r. DataURL ''data:image/png;base64,iVBORw0KGgo='') ''test.png'' 4 800 600 =
     Resolved \<lparr>data = ''data:image/png;base64,iVBORw0KGgo='',
               region = getGridSegmentRegion 800 600 4, gridIndex = 4\<rparr> \<and>
   region \<lparr>data = ''data:image/png;base64,iVBORw0KGgo='',
           region = getGridSegmentRegion 800 600 4, gridIndex = 4\<rparr> =
     getGridSegmentRegion 800 600 4"
proof -
  have r: "cropAndStoreDefect (\<lambda>u r. DataURL ''data:image/png;base64,iVBORw0KGgo='') ''test.png'' 4 800 600 =
     Resolved \<lparr>data = ''data:image/png;base64,iVBORw0KGgo='',
               region = getGridSegmentRegion 800 600 4, gridIndex = 4\<rparr>"
    by (simp add: cropAndStoreDefect_def cropImageRegion_def)
  from cropAndStoreDefect_resolved [OF r] r show ?thesis
    by simp
qed

section \<open>The dimensions behind the crops of the viewer\<close>

lemma loadCroppedImages_default:
  assumes "imageWidth props = None" and "imageHeight props = None"
  shows "loadCroppedImages browser props i =
           [cropAndStoreDefect browser (testImageUrl props) i 800 600,
            cropAndStoreDefect browser (masterImageUrl props) i 800 600]"
  using assms by (simp add: loadCroppedImages_def)

lemma InspectionCard_omits_dimensions:
  assumes "InspectionCard_DefectViewer showDefectViewer currentImage = Some props"
  shows "imageWidth props = None \<and> imageHeight props = None"
  using assms
  by (auto simp add: InspectionCard_DefectViewer_def split: if_splits option.splits)

lemma InspectionCard_passes_paths:
  assumes "InspectionCard_DefectViewer showDefectViewer currentImage = Some props"
  shows "testImageUrl props = TestImage.image_path currentImage \<and>
         map_option GoldenImage.image_path (golden_image currentImage) =
           Some (masterImageUrl props) \<and>
         detected_defects currentImage = Some (analysisResult props)"
  using assms
  by (auto simp add: InspectionCard_DefectViewer_def split: if_splits option.splits)

lemma resolved_crop:
  assumes "cropAndStoreDefect browser url i W H = Resolved c"
  shows "browser url (getGridSegmentRegion W H i) = DataURL (data c) \<and>
         region c = getGridSegmentRegion W H i \<and> gridIndex c = i"
  using assms
  by (auto simp add: cropAndStoreDefect_def cropImageRegion_def Let_def
      split: callback.splits crop_event.splits)

text \<open>
  Claim C10. \<open>DefectViewer\<close> computes its crops from the width 800 and the height 600
  whenever the props \<open>imageWidth\<close> and \<open>imageHeight\<close> are missing; the element that
  \<open>InspectionCard\<close> renders never has them and is given the paths of the test image and
  of its template. So the two promises of \<open>loadCroppedImages\<close> are those of the 800 by
  600 grid, and when one resolves, its \<open>data\<close>, which the viewer shows, is the data URL
  that the browser made of the image at that path and of the region
  \<open>getGridSegmentRegion 800 600 gridIndex\<close>, whatever the image is.
\<close>

theorem DefectViewer_fixed_dimensions:
  "(imageWidth props = None \<and> imageHeight props = None \<longrightarrow>
      loadCroppedImages browser props i =
        [cropAndStoreDefect browser (testImageUrl props) i 800 600,
         cropAndStoreDefect browser (masterImageUrl props) i 800 600]) \<and>
   (InspectionCard_DefectViewer showDefectViewer currentImage = Some props \<longrightarrow>
      imageWidth props = None \<and> imageHeight props = None \<and>
      testImageUrl props = TestImage.image_path currentImage \<and>
      map_option GoldenImage.image_path (golden_image currentImage) =
        Some (masterImageUrl props) \<and>
      length (loadCroppedImages browser props i) = 2 \<and>
      (\<forall>c. Resolved c \<in> set (loadCroppedImages browser props i) \<longrightarrow>
         region c = getGridSegmentRegion 800 600 i) \<and>
      (\<forall>testCrop. loadCroppedImages browser props i ! 0 = Resolved testCrop \<longrightarrow>
         browser (TestImage.image_path currentImage) (getGridSegmentRegion 800 600 i) =
           DataURL (data testCrop) \<and>
         region testCrop = getGridSegmentRegion 800 600 i \<and> gridIndex testCrop = i) \<and>
      (\<forall>masterCrop. loadCroppedImages browser props i ! 1 = Resolved masterCrop \<longrightarrow>
         browser (masterImageUrl props) (getGridSegmentRegion 800 600 i) =
           DataURL (data masterCrop) \<and>
         region masterCrop = getGridSegmentRegion 800 600 i \<and> gridIndex masterCrop = i))"
proof (intro conjI impI)
  assume "imageWidth props = None \<and> imageHeight props = None"
  then show "loadCroppedImages browser props i =
        [cropAndStoreDefect browser (testImageUrl props) i 800 600,
         cropAndStoreDefect browser (masterImageUrl props) i 800 600]"
    by (simp add: loadCroppedImages_default)
next
  assume a: "InspectionCard_DefectViewer showDefectViewer currentImage = Some props"
  from a show none: "imageWidth props = None" "imageHeight props = None"
    using InspectionCard_omits_dimensions by blast+
  from a show paths: "testImageUrl props = TestImage.image_path currentImage"
    "map_option GoldenImage.image_path (golden_image currentImage) = Some (masterImageUrl props)"
    using InspectionCard_passes_paths by blast+
  from none have l: "loadCroppedImages browser props i =
        [cropAndStoreDefect browser (testImageUrl props) i 800 600,
         cropAndStoreDefect browser (masterImageUrl props) i 800 600]"
    by (rule loadCroppedImages_default)
  then show "length (loadCroppedImages browser props i) = 2"
    by simp
  show "\<forall>c. Resolved c \<in> set (loadCroppedImages browser props i) \<longrightarrow>
         region c = getGridSegmentRegion 800 600 i"
  proof (intro allI impI)
    fix c
    assume "Resolved c \<in> set (loadCroppedImages browser props i)"
    with l have "cropAndStoreDefect browser (testImageUrl props) i 800 600 = Resolved c \<or>
                 cropAndStoreDefect browser (masterImageUrl props) i 800 600 = Resolved c"
      by auto
    then show "region c = getGridSegmentRegion 800 600 i"
      using resolved_crop by blast
  qed
  show "\<forall>testCrop. loadCroppedImages browser props i ! 0 = Resolved testCrop \<longrightarrow>
         browser (TestImage.image_path currentImage) (getGridSegmentRegion 800 600 i) =
           DataURL (data testCrop) \<and>
         region testCrop = getGridSegmentRegion 800 600 i \<and> gridIndex testCrop = i"
  proof (intro allI impI)
    fix testCrop
    assume "loadCroppedImages browser props i ! 0 = Resolved testCrop"
    with l paths(1)
    have "cropAndStoreDefect browser (TestImage.image_path currentImage) i 800 600 =
            Resolved testCrop"
      by simp
    then show "browser (TestImage.image_path currentImage) (getGridSegmentRegion 800 600 i) =
           DataURL (data testCrop) \<and>
         region testCrop = getGridSegmentRegion 800 600 i \<and> gridIndex testCrop = i"
      by (rule resolved_crop)
  qed
  show "\<forall>masterCrop. loadCroppedImages browser props i ! 1 = Resolved masterCrop \<longrightarrow>
         browser (masterImageUrl props) (getGridSegmentRegion 800 600 i) =
           DataURL (data masterCrop) \<and>
         region masterCrop = getGridSegmentRegion 800 600 i \<and> gridIndex masterCrop = i"
  proof (intro allI impI)
    fix masterCrop
    assume "loadCroppedImages browser props i ! 1 = Resolved masterCrop"
    with l have "cropAndStoreDefect browser (masterImageUrl props) i 800 600 =
            Resolved masterCrop"
      by simp
    then show "browser (masterImageUrl props) (getGridSegmentRegion 800 600 i) =
           DataURL (data masterCrop) \<and>
         region masterCrop = getGridSegmentRegion 800 600 i \<and> gridIndex masterCrop = i"
      by (rule resolved_crop)
  qed
qed

text \<open>
  An image with nine analysed segments, of which segment 4 has an anomaly, and a browser
  that makes a crop of the region of segment 4 of the 800 by 600 grid and of no other
  region: the viewer, opened by \<open>InspectionCard\<close>, has a button for segment 4, and
  both of its crops for that segment resolve.
\<close>

theorem DefectViewer_fixed_dimensions_witness:
  "InspectionCard_DefectViewer True
     \<lparr>image_path = ''test/7.png'',
      detected_defects = Some (aggregate (map (\<lambda>i.
        \<lparr>segment_index = i, ssim_score = (if i = 4 then 9 / 10 else 99 / 100),
         pixel_diff_score = (if i = 4 then 30 else 0), anomaly_detected = (i = 4),
         confidence = 1, verdict = (if i = 4 then ''DEFECT'' else ''NORMAL'')\<rparr>) [0..<9])),
      golden_image = Some \<lparr>GoldenImage.image_path = ''golden/1.png''\<rparr>\<rparr> =
     Some \<lparr>testImageUrl = ''test/7.png'', masterImageUrl = ''golden/1.png'',
           analysisResult = aggregate (map (\<lambda>i.
        \<lparr>segment_index = i, ssim_score = (if i = 4 then 9 / 10 else 99 / 100),
         pixel_diff_score = (if i = 4 then 30 else 0), anomaly_detected = (i = 4),
         confidence = 1, verdict = (if i = 4 then ''DEFECT'' else ''NORMAL'')\<rparr>) [0..<9]),
           imageWidth = None, imageHeight = None\<rparr> \<and>
   map segment_index (segments (aggregate (map (\<lambda>i.
        \<lparr>segment_index = i, ssim_score = (if i = 4 then 9 / 10 else 99 / 100),
         pixel_diff_score = (if i = 4 then 30 else 0), anomaly_detected = (i = 4),
         confidence = 1, verdict = (if i = 4 then ''DEFECT'' else ''NORMAL'')\<rparr>) [0..<9]))) ! 4 = 4 \<and>
   loadCroppedImages
     (\<lambda>u r. if r = \<lparr>x = 800 / 3, y = 200, width = 800 / 3, height = 200\<rparr>
             then DataURL (''data:'' @ u) else ImageError)
     \<lparr>testImageUrl = ''test/7.png'', masterImageUrl = ''golden/1.png'',
      analysisResult = aggregate (map (\<lambda>i.
        \<lparr>segment_index = i, ssim_score = (if i = 4 then 9 / 10 else 99 / 100),
         pixel_diff_score = (if i = 4 then 30 else 0), anomaly_detected = (i = 4),
         confidence = 1, verdict = (if i = 4 then ''DEFECT'' else ''NORMAL'')\<rparr>) [0..<9]),
      imageWidth = None, imageHeight = None\<rparr> 4 =
     [Resolved \<lparr>data = ''data:test/7.png'',
                region = \<lparr>x = 800 / 3, y = 200, width = 800 / 3, height = 200\<rparr>,
                gridIndex = 4\<rparr>,
      Resolved \<lparr>data = ''data:golden/1.png'',
                region = \<lparr>x = 800 / 3, y = 200, width = 800 / 3, height = 200\<rparr>,
                gridIndex = 4\<rparr>] \<and>
   getGridSegmentRegion 800 600 4 = \<lparr>x = 800 / 3, y = 200, width = 800 / 3, height = 200\<rparr>"
proof -
  let ?result = "aggregate (map (\<lambda>i.
        \<lparr>segment_index = i, ssim_score = (if i = 4 then 9 / 10 else 99 / 100),
         pixel_diff_score = (if i = 4 then 30 else 0), anomaly_detected = (i = 4),
         confidence = 1, verdict = (if i = 4 then ''DEFECT'' else ''NORMAL'')\<rparr>) [0..<9])"
  let ?img = "\<lparr>image_path = ''test/7.png'', detected_defects = Some ?result,
      golden_image = Some \<lparr>GoldenImage.image_path = ''golden/1.png''\<rparr>\<rparr>"
  let ?props = "\<lparr>testImageUrl = ''test/7.png'', masterImageUrl = ''golden/1.png'',
           analysisResult = ?result, imageWidth = None, imageHeight = None\<rparr>"
  let ?r = "\<lparr>x = 800 / 3, y = 200, width = 800 / 3, height = (200::rat)\<rparr>"
  let ?b = "\<lambda>(u::string) (r::CropRegion). if r = ?r then DataURL (''data:'' @ u) else ImageError"
  let ?t = "\<lparr>data = ''data:test/7.png'', region = ?r, gridIndex = 4\<rparr>"
  let ?m = "\<lparr>data = ''data:golden/1.png'', region = ?r, gridIndex = 4\<rparr>"
  have g: "getGridSegmentRegion 800 600 4 = ?r"
    using getGridSegmentRegion_nat [of 800 600 4] by simp
  have h: "InspectionCard_DefectViewer True ?img = Some ?props"
    by (simp add: InspectionCard_DefectViewer_def)
  have button: "map segment_index (segments ?result) ! 4 = 4"
    by (simp add: aggregate_def Let_def comp_def)
  have l: "loadCroppedImages ?b ?props 4 = [Resolved ?t, Resolved ?m]"
    by (simp add: loadCroppedImages_def cropAndStoreDefect_def cropImageRegion_def g)
  then have t: "loadCroppedImages ?b ?props 4 ! 0 = Resolved ?t"
    and m: "loadCroppedImages ?b ?props 4 ! 1 = Resolved ?m"
    by simp_all
  note fd = DefectViewer_fixed_dimensions [of ?props ?b 4 True ?img, THEN conjunct2, rule_format, OF h]
  from fd t have "?b (TestImage.image_path ?img) (getGridSegmentRegion 800 600 4) = DataURL (data ?t)"
    by blast
  moreover from fd m have "?b (masterImageUrl ?props) (getGridSegmentRegion 800 600 4) = DataURL (data ?m)"
    by blast
  ultimately show ?thesis
    using h button l g by simp
qed

section \<open>The invariant of the analysis result\<close>

lemma defect_locations_distinct:
  assumes "map segment_index segs = [0..<9]"
  shows "distinct (map segment_index (filter anomaly_detected segs))"
proof -
  from assms have "distinct (map segment_index segs)"
    by simp
  then show ?thesis
    by (rule distinct_map_filter)
qed

text \<open>
  Claim C5. In every \<open>AnalysisResult\<close> that the aggregator of the pipeline produces,
  \<open>anomaly_count\<close> is the size of \<open>defect_locations\<close> and the number of segments with
  \<open>anomaly_detected\<close>, and the verdict is \<open>DEFECT\<close> if and only if \<open>anomaly_count\<close>
  is positive. The size of \<open>defect_locations\<close> is its length and, for segments indexed
  0 to 8 as the data model has them, also the number of its distinct elements.
\<close>

theorem aggregate_invariant:
  "anomaly_count (aggregate segs) = length (defect_locations (aggregate segs)) \<and>
   anomaly_count (aggregate segs) =
     length (filter anomaly_detected (segments (aggregate segs))) \<and>
   (AnalysisResult.verdict (aggregate segs) = ''DEFECT'') = (0 < anomaly_count (aggregate segs)) \<and>
   (AnalysisResult.verdict (aggregate segs) = ''NORMAL'') = (anomaly_count (aggregate segs) = 0) \<and>
   (map segment_index segs = [0..<9] \<longrightarrow>
      card (set (defect_locations (aggregate segs))) = anomaly_count (aggregate segs))"
proof -
  have "card (set (map segment_index (filter anomaly_detected segs))) =
          length (filter anomaly_detected segs)"
    if "map segment_index segs = [0..<9]"
    using defect_locations_distinct [OF that] distinct_card by fastforce
  then show ?thesis
    by (simp add: aggregate_def Let_def)
qed

theorem aggregate_invariant_witness:
  "map segment_index
     (map (\<lambda>i. \<lparr>segment_index = i, ssim_score = (if i = 4 then 9 / 10 else 99 / 100),
                 pixel_diff_score = (if i = 4 then 30 else 0), anomaly_detected = (i = 4),
                 confidence = 1, verdict = (if i = 4 then ''DEFECT'' else ''NORMAL'')\<rparr>)
        [0..<9]) = [0..<9] \<and>
   card (set (defect_locations (aggregate
     (map (\<lambda>i. \<lparr>segment_index = i, ssim_score = (if i = 4 then 9 / 10 else 99 / 100),
                 pixel_diff_score = (if i = 4 then 30 else 0), anomaly_detected = (i = 4),
                 confidence = 1, verdict = (if i = 4 then ''DEFECT'' else ''NORMAL'')\<rparr>)
        [0..<9])))) = 1 \<and>
   AnalysisResult.verdict (aggregate
     (map (\<lambda>i. \<lparr>segment_index = i, ssim_score = (if i = 4 then 9 / 10 else 99 / 100),
                 pixel_diff_score = (if i = 4 then 30 else 0), anomaly_detected = (i = 4),
                 confidence = 1, verdict = (if i = 4 then ''DEFECT'' else ''NORMAL'')\<rparr>)
        [0..<9])) = ''DEFECT''"
proof -
  let ?segs = "map (\<lambda>i. \<lparr>segment_index = i, ssim_score = (if i = 4 then 9 / 10 else 99 / 100),
                 pixel_diff_score = (if i = 4 then 30 else 0), anomaly_detected = (i = 4),
                 confidence = 1, verdict = (if i = 4 then ''DEFECT'' else ''NORMAL'')\<rparr>)
        [0..<9::nat]"
  have idx: "map segment_index ?segs = [0..<9]"
    by (simp add: comp_def)
  have cnt: "anomaly_count (aggregate ?segs) = 1"
    by (simp add: aggregate_def Let_def upt_conv_Cons filter_map comp_def)
  from aggregate_invariant [of ?segs] idx cnt show ?thesis
    by simp
qed

end
